theory Spec2Isabelle
  imports Main
begin

section \<open>Configuration dictionaries\<close>

text \<open>
  The handler \<^verbatim>\<open>src/conf_mode/protocols_isis.py\<close> works on the dictionary that
  \<^verbatim>\<open>get_config\<close> returns: string keys, and as values scalar strings, lists of strings
  (multi-valued leaves, \<^verbatim>\<open>interface_removed\<close>) and nested dictionaries. A dictionary is an
  association list in insertion order, the order in which Python iterates it; a Python
  dictionary has every key once.
\<close>

datatype cfg = Str string | Lst "string list" | Dict "(string \<times> cfg) list"

type_synonym config_dict = "(string \<times> cfg) list"

text \<open>
  The exceptions the handler can end with. \<^verbatim>\<open>ConfigError\<close> is the one the handler raises
  itself and the only one its main block catches; the others are raised by the Python
  run time.
\<close>

datatype error =
    ConfigError string
  | KeyError string
  | NameError string
  | TypeError
  | ValueError
  | AttributeError

subsection \<open>Python's operations on these values\<close>

text \<open>\<^verbatim>\<open>key in d\<close> for a dictionary \<^verbatim>\<open>d\<close>.\<close>

definition has_key :: "(string \<times> 'a) list \<Rightarrow> string \<Rightarrow> bool" where
  "has_key d k = (map_of d k \<noteq> None)"

fun starts_with :: "string \<Rightarrow> string \<Rightarrow> bool" where
  "starts_with [] ys = True"
| "starts_with (x # xs) [] = False"
| "starts_with (x # xs) (y # ys) = (x = y \<and> starts_with xs ys)"

text \<open>\<^verbatim>\<open>xs in ys\<close> for two strings: \<^verbatim>\<open>xs\<close> occurs in \<^verbatim>\<open>ys\<close> as a substring.\<close>

fun substring :: "string \<Rightarrow> string \<Rightarrow> bool" where
  "substring xs [] = (xs = [])"
| "substring xs (y # ys) = (starts_with xs (y # ys) \<or> substring xs ys)"

text \<open>\<^verbatim>\<open>x in v\<close> for a string \<^verbatim>\<open>x\<close>: a key of a dictionary, an element of a list, a
  substring of a string.\<close>

fun py_in :: "string \<Rightarrow> cfg \<Rightarrow> bool" where
  "py_in x (Dict d) = has_key d x"
| "py_in x (Lst l) = (x \<in> set l)"
| "py_in x (Str s) = substring x s"

text \<open>\<^verbatim>\<open>for x in v\<close> and \<^verbatim>\<open>set(v)\<close>: the keys of a dictionary, the elements of a list, the
  characters of a string.\<close>

fun py_iter :: "cfg \<Rightarrow> string list" where
  "py_iter (Dict d) = map fst d"
| "py_iter (Lst l) = l"
| "py_iter (Str s) = map (\<lambda>c. [c]) s"

text \<open>The truth value of an expression that is \<^verbatim>\<open>None\<close> or a configuration value:
  \<^verbatim>\<open>None\<close> and the empty string, list and dictionary are false.\<close>

fun truthy :: "cfg option \<Rightarrow> bool" where
  "truthy None = False"
| "truthy (Some (Str s)) = (s \<noteq> [])"
| "truthy (Some (Lst l)) = (l \<noteq> [])"
| "truthy (Some (Dict d)) = (d \<noteq> [])"

text \<open>\<^verbatim>\<open>str(v)\<close> inside an f-string. Only the case of a string is rendered: \<^verbatim>\<open>get_config\<close>
  stores the command-line argument under \<^verbatim>\<open>vrf\<close>; Python's \<^verbatim>\<open>repr\<close> of a list or a
  dictionary is not spelled out.\<close>

fun py_str :: "cfg \<Rightarrow> string" where
  "py_str (Str s) = s"
| "py_str (Lst l) = ''<list>''"
| "py_str (Dict d) = ''<dict>''"

text \<open>\<^verbatim>\<open>s.replace(a, b)\<close> for single characters, and \<^verbatim>\<open>sep.join(xs)\<close>.\<close>

definition replace_char :: "char \<Rightarrow> char \<Rightarrow> string \<Rightarrow> string" where
  "replace_char a b s = map (\<lambda>c. if c = a then b else c) s"

fun join :: "string \<Rightarrow> string list \<Rightarrow> string" where
  "join sep [] = []"
| "join sep [x] = x"
| "join sep (x # y # ys) = x @ sep @ join sep (y # ys)"

subsection \<open>\<^verbatim>\<open>int()\<close>\<close>

text \<open>
  \<^verbatim>\<open>int(v)\<close>: \<^verbatim>\<open>None\<close>, a list and a dictionary raise \<^verbatim>\<open>TypeError\<close>. A string is read
  as CPython reads it; a character is a code point below 256. The white space that is
  skipped around the literal is that of C: the space and the characters 9 to 13. In a
  string that is not ASCII, CPython first turns the other Unicode white space (133 and
  160, below 256) into spaces; a string that holds either is not ASCII. The literal is
  an optional sign and decimal digits, with single underscores allowed between digits.
  Python from 3.11 on, and the later releases of 3.7 to 3.10, refuse a literal of more
  than 4300 digits; the model refuses it too, so that it accepts what every version
  accepts. Anything else raises \<^verbatim>\<open>ValueError\<close>.
\<close>

definition is_space :: "char \<Rightarrow> bool" where
  "is_space c = (c \<in> {CHR '' '', CHR 0x09, CHR 0x0A, CHR 0x0B, CHR 0x0C, CHR 0x0D})"

text \<open>\<^verbatim>\<open>str.isspace\<close> on a code point below 256: the white space of \<^verbatim>\<open>\s\<close> and \<^verbatim>\<open>\S\<close>
  in a regular expression.\<close>

definition unicode_space :: "char \<Rightarrow> bool" where
  "unicode_space c =
     (is_space c \<or> c \<in> {CHR 0x1C, CHR 0x1D, CHR 0x1E, CHR 0x1F, CHR 0x85, CHR 0xA0})"

definition space_to_ascii :: "char \<Rightarrow> char" where
  "space_to_ascii c = (if c \<in> {CHR 0x85, CHR 0xA0} then CHR '' '' else c)"

definition is_digit :: "char \<Rightarrow> bool" where
  "is_digit c = (c \<in> set ''0123456789'')"

definition digit_val :: "char \<Rightarrow> int" where
  "digit_val c = of_char c - 48"

definition strip :: "string \<Rightarrow> string" where
  "strip s = rev (dropWhile is_space (rev (dropWhile is_space s)))"

text \<open>The digits of a literal, underscores removed; \<^verbatim>\<open>None\<close> when an underscore is
  not between two digits or another character occurs. The flag says that the previous
  character was a digit.\<close>

fun digits_of :: "bool \<Rightarrow> string \<Rightarrow> string option" where
  "digits_of prev [] = (if prev then Some [] else None)"
| "digits_of prev (c # cs) =
     (if is_digit c then map_option (\<lambda>ds. c # ds) (digits_of True cs)
      else if c = CHR ''_'' \<and> prev then digits_of False cs
      else None)"

definition max_str_digits :: nat where
  "max_str_digits = 4300"

definition decimal :: "string \<Rightarrow> int option" where
  "decimal ds =
     (if length ds > max_str_digits then None
      else Some (foldl (\<lambda>n c. 10 * n + digit_val c) 0 ds))"

definition int_of_string :: "string \<Rightarrow> int option" where
  "int_of_string s =
     (case strip (map space_to_ascii s) of
        [] \<Rightarrow> None
      | c # cs \<Rightarrow>
          if c = CHR ''-'' then
            map_option uminus (Option.bind (digits_of False cs) decimal)
          else if c = CHR ''+'' then Option.bind (digits_of False cs) decimal
          else Option.bind (digits_of False (c # cs)) decimal)"

fun py_int :: "cfg option \<Rightarrow> error + int" where
  "py_int None = Inl TypeError"
| "py_int (Some (Str s)) = (case int_of_string s of None \<Rightarrow> Inl ValueError | Some n \<Rightarrow> Inr n)"
| "py_int (Some (Lst l)) = Inl TypeError"
| "py_int (Some (Dict d)) = Inl TypeError"

subsection \<open>\<^verbatim>\<open>dict_search\<close>\<close>

text \<open>\<^verbatim>\<open>s.split(sep)\<close> for a one-character separator.\<close>

fun split_on :: "char \<Rightarrow> string \<Rightarrow> string list" where
  "split_on sep [] = [[]]"
| "split_on sep (c # cs) =
     (if c = sep then [] # split_on sep cs
      else (case split_on sep cs of [] \<Rightarrow> [[c]] | p # ps \<Rightarrow> (c # p) # ps))"

text \<open>Modelled from the spec: the walk of \<^verbatim>\<open>vyos.util.dict_search\<close>, which is not among
  the sources, along the parts of a path; a part that is not there, or that is looked up
  in a value that is no dictionary, gives \<^verbatim>\<open>None\<close>.\<close>

fun walk_path :: "string list \<Rightarrow> cfg \<Rightarrow> cfg option" where
  "walk_path [] v = Some v"
| "walk_path (p # ps) (Dict d) = (case map_of d p of None \<Rightarrow> None | Some v \<Rightarrow> walk_path ps v)"
| "walk_path (p # ps) (Lst l) = None"
| "walk_path (p # ps) (Str s) = None"

text \<open>
  Modelled from the spec: \<^verbatim>\<open>vyos.util.dict_search\<close>, which \<^verbatim>\<open>verify\<close> imports, is not
  among the sources. The handler uses it as the lookup of a dot-separated path in the
  nested dictionary, with \<^verbatim>\<open>None\<close> for a path that is not there (the ``both must be present
  together or neither'' rule of the spec reads its result as present or absent).
\<close>

definition dict_search :: "string \<Rightarrow> config_dict \<Rightarrow> cfg option" where
  "dict_search path my_dict =
     (if path = [] then None else walk_path (split_on CHR ''.'' path) (Dict my_dict))"

section \<open>\<^verbatim>\<open>verify\<close>\<close>

text \<open>The first exception of a sequence of statements: later ones are not run.\<close>

fun first_error :: "(error + unit) list \<Rightarrow> error + unit" where
  "first_error [] = Inr ()"
| "first_error (Inl e # cs) = Inl e"
| "first_error (Inr u # cs) = first_error cs"

text \<open>Lines 77 to 85: the mandatory keys, in the order \<^verbatim>\<open>domain\<close>, \<^verbatim>\<open>net\<close>,
  \<^verbatim>\<open>interface\<close>.\<close>

definition check_mandatory :: "config_dict \<Rightarrow> error + unit" where
  "check_mandatory isis =
     (if \<not> has_key isis ''domain'' then
        Inl (ConfigError ''Routing domain name/tag must be set!'')
      else if \<not> has_key isis ''net'' then
        Inl (ConfigError ''Network entity is mandatory!'')
      else if \<not> has_key isis ''interface'' then
        Inl (ConfigError ''Interface used for routing updates is mandatory!'')
      else Inr ())"

text \<open>
  Lines 87 to 96: the loop over \<^verbatim>\<open>isis['interface']\<close>. \<^verbatim>\<open>get_interface_config\<close> is the
  host's interface state query (\<^verbatim>\<open>vyos.util\<close>, not among the sources); it is a parameter,
  of the shape the spec gives it: a name to a dictionary holding \<^verbatim>\<open>master\<close>.
\<close>

fun check_interfaces ::
  "(string \<Rightarrow> (string \<times> string) list) \<Rightarrow> config_dict \<Rightarrow> string list \<Rightarrow> error + unit" where
  "check_interfaces get_interface_config isis [] = Inr ()"
| "check_interfaces get_interface_config isis (interface # rest) =
     (case map_of isis ''vrf'' of
        None \<Rightarrow> check_interfaces get_interface_config isis rest
      | Some vrf \<Rightarrow>
          (let tmp = get_interface_config interface in
           if \<not> has_key tmp ''master'' \<or> map_option Str (map_of tmp ''master'') \<noteq> Some vrf then
             Inl (ConfigError (''Interface '' @ interface @ '' is not a member of VRF ''
                                @ py_str vrf @ ''!''))
           else check_interfaces get_interface_config isis rest))"

text \<open>Lines 98 to 101: \<^verbatim>\<open>isis['encryption']\<close> is a plain subscript, a \<^verbatim>\<open>KeyError\<close> when the
  key is missing.\<close>

definition check_area_password :: "config_dict \<Rightarrow> error + unit" where
  "check_area_password isis =
     (if has_key isis ''area_password'' then
        (case map_of isis ''encryption'' of
           None \<Rightarrow> Inl (KeyError ''encryption'')
         | Some enc \<Rightarrow>
             if {''md5'', ''plaintext_password''} \<subseteq> set (py_iter enc) then
               Inl (ConfigError
                 ''Can not use both md5 and plaintext-password for ISIS area-password!'')
             else Inr ())
      else Inr ())"

text \<open>
  Lines 103 to 113. The source joins a Python set, whose iteration order is not fixed;
  the message here lists the missing timers in the order of \<^verbatim>\<open>required_timers\<close>.
\<close>

definition required_timers :: "string list" where
  "required_timers = [''holddown'', ''init_delay'', ''long_delay'', ''short_delay'',
                      ''time_to_learn'']"

definition missing_timers :: "cfg \<Rightarrow> string list" where
  "missing_timers spf = filter (\<lambda>elm_timer. \<not> py_in elm_timer spf) required_timers"

definition check_spf_delay :: "config_dict \<Rightarrow> error + unit" where
  "check_spf_delay isis =
     (case map_of isis ''spf_delay_ietf'' of
        None \<Rightarrow> Inr ()
      | Some spf \<Rightarrow>
          if length (missing_timers spf) > 0 then
            Inl (ConfigError (''All types of delay must be specified: ''
                   @ replace_char CHR ''_'' CHR ''-'' (join '', '' (missing_timers spf))))
          else Inr ())"

text \<open>
  Lines 115 to 130. Both \<^verbatim>\<open>raise\<close> statements build their message from an f-string that
  reads the name \<^verbatim>\<open>process\<close>, which the module neither defines nor imports: evaluating
  the message raises \<^verbatim>\<open>NameError\<close> before a \<^verbatim>\<open>ConfigError\<close> exists.
\<close>

fun check_levels :: "string \<Rightarrow> string list \<Rightarrow> error + unit" where
  "check_levels proc_level [] = Inr ()"
| "check_levels proc_level (redistr_level # rest) =
     (if proc_level \<noteq> [] \<and> proc_level \<noteq> ''level_1_2'' \<and> proc_level \<noteq> redistr_level then
        Inl (NameError ''process'')
      else check_levels proc_level rest)"

fun check_protocols :: "string \<Rightarrow> (string \<times> cfg) list \<Rightarrow> error + unit" where
  "check_protocols proc_level [] = Inr ()"
| "check_protocols proc_level ((proto, proto_config) # rest) =
     (if \<not> py_in ''level_1'' proto_config \<and> \<not> py_in ''level_2'' proto_config then
        Inl (NameError ''process'')
      else
        (case proto_config of
           Dict d \<Rightarrow>
             (case check_levels proc_level (map fst d) of
                Inl e \<Rightarrow> Inl e
              | Inr u \<Rightarrow> check_protocols proc_level rest)
         | Lst l \<Rightarrow> Inl AttributeError
         | Str s \<Rightarrow> Inl AttributeError))"

definition check_redistribute :: "config_dict \<Rightarrow> error + unit" where
  "check_redistribute isis =
     (case map_of isis ''redistribute'' of
        None \<Rightarrow> Inr ()
      | Some redistribute \<Rightarrow>
          (case (case map_of isis ''level'' of
                   None \<Rightarrow> Inr []
                 | Some (Str s) \<Rightarrow> Inr (replace_char CHR ''-'' CHR ''_'' s)
                 | Some (Lst l) \<Rightarrow> Inl AttributeError
                 | Some (Dict d) \<Rightarrow> Inl AttributeError) of
             Inl e \<Rightarrow> Inl e
           | Inr proc_level \<Rightarrow>
               if \<not> py_in ''ipv4'' redistribute then Inr ()
               else
                 (case redistribute of
                    Dict d \<Rightarrow>
                      (case map_of d ''ipv4'' of
                         Some (Dict protos) \<Rightarrow> check_protocols proc_level protos
                       | Some (Lst l) \<Rightarrow> Inl AttributeError
                       | Some (Str s) \<Rightarrow> Inl AttributeError
                       | None \<Rightarrow> Inl (KeyError ''ipv4''))
                  | Lst l \<Rightarrow> Inl TypeError
                  | Str s \<Rightarrow> Inl TypeError)))"

text \<open>
  Lines 132 to 155: the same statements twice, for \<^verbatim>\<open>global_block\<close> and
  \<^verbatim>\<open>local_block\<close>, with their own messages. \<^verbatim>\<open>int(low_label_value)\<close> is evaluated
  before \<^verbatim>\<open>int(high_label_value)\<close>.
\<close>

definition check_label_block :: "string \<Rightarrow> string \<Rightarrow> string \<Rightarrow> config_dict \<Rightarrow> error + unit" where
  "check_label_block block msg_both msg_order isis =
     (if truthy (dict_search (''segment_routing.'' @ block) isis) then
        (let high_label_value = dict_search (''segment_routing.'' @ block @ ''.high_label_value'') isis;
             low_label_value = dict_search (''segment_routing.'' @ block @ ''.low_label_value'') isis
         in
           if (truthy low_label_value \<and> \<not> truthy high_label_value)
              \<or> (truthy high_label_value \<and> \<not> truthy low_label_value) then
             Inl (ConfigError msg_both)
           else
             (case py_int low_label_value of
                Inl e \<Rightarrow> Inl e
              | Inr low \<Rightarrow>
                  (case py_int high_label_value of
                     Inl e \<Rightarrow> Inl e
                   | Inr high \<Rightarrow> if low > high then Inl (ConfigError msg_order) else Inr ())))
      else Inr ())"

definition check_global_block :: "config_dict \<Rightarrow> error + unit" where
  "check_global_block =
     check_label_block ''global_block''
       ''Segment routing global block requires both low and high value!''
       ''Segment routing global block low value must be lower than high value''"

definition check_local_block :: "config_dict \<Rightarrow> error + unit" where
  "check_local_block =
     check_label_block ''local_block''
       ''Segment routing local block requires both high and low value!''
       ''Segment routing local block low value must be lower than high value''"

text \<open>The loop of line 87 runs over \<^verbatim>\<open>isis['interface']\<close>; it is reached only when the
  mandatory keys are there.\<close>

definition check_vrf_members ::
  "(string \<Rightarrow> (string \<times> string) list) \<Rightarrow> config_dict \<Rightarrow> error + unit" where
  "check_vrf_members get_interface_config isis =
     (case map_of isis ''interface'' of
        None \<Rightarrow> Inl (KeyError ''interface'')
      | Some ifaces \<Rightarrow> check_interfaces get_interface_config isis (py_iter ifaces))"

text \<open>The rules of \<^verbatim>\<open>verify\<close> after the early return of line 74, in the order of the
  source.\<close>

definition verify_rules ::
  "(string \<Rightarrow> (string \<times> string) list) \<Rightarrow> config_dict \<Rightarrow> (error + unit) list" where
  "verify_rules get_interface_config isis =
     [check_mandatory isis,
      check_vrf_members get_interface_config isis,
      check_area_password isis,
      check_spf_delay isis,
      check_redistribute isis,
      check_global_block isis,
      check_local_block isis]"

text \<open>
  \<^verbatim>\<open>verify\<close>: \<^verbatim>\<open>Inr ()\<close> is the return of \<^verbatim>\<open>None\<close>, \<^verbatim>\<open>Inl e\<close> the exception the call ends
  with.
\<close>

definition verify ::
  "(string \<Rightarrow> (string \<times> string) list) \<Rightarrow> config_dict \<Rightarrow> error + unit" where
  "verify get_interface_config isis =
     (if isis = [] \<or> has_key isis ''deleted'' then Inr ()
      else first_error (verify_rules get_interface_config isis))"

text \<open>Whether a call ended with a \<^verbatim>\<open>ConfigError\<close>, whatever its message.\<close>

fun raises_config_error :: "error + 'a \<Rightarrow> bool" where
  "raises_config_error (Inl (ConfigError msg)) = True"
| "raises_config_error r = False"

section \<open>The daemon's configuration text\<close>

text \<open>
  \<^verbatim>\<open>vyos.frr\<close>, the daemon configuration interface that \<^verbatim>\<open>apply\<close> calls, is not among
  the sources; the definitions of this section follow the spec (sections 3, 4.4 and 6).
  The daemon's configuration is a text snapshot, held as its list of lines. Two things
  the spec leaves to the collaborators are parameters of the model: \<^verbatim>\<open>re_match\<close>, whether
  a regular expression matches a line (Python's \<^verbatim>\<open>re\<close>), and \<^verbatim>\<open>continues\<close>, whether a
  line belongs to the section that the lines above it opened.
\<close>

text \<open>Modelled from the spec: the lines of a text handed to the daemon interface, which
  is not among the sources. A newline ends a line, and the empty text has no line (the
  spec inserts new content only if it is non-empty).\<close>

fun lines_of :: "string \<Rightarrow> string list" where
  "lines_of [] = []"
| "lines_of (c # cs) =
     (if c = CHR 0x0A then [] # lines_of cs
      else (case lines_of cs of [] \<Rightarrow> [[c]] | l # ls \<Rightarrow> (c # l) # ls))"

text \<open>Modelled from the spec: the class \<^verbatim>\<open>FRRConfig\<close> of \<^verbatim>\<open>vyos.frr\<close>, which is not among
  the sources. The object holds the snapshot being edited; the model keeps with it the
  snapshots committed so far, oldest first.\<close>

record frr_config =
  config :: "string list"
  committed :: "string list list"

text \<open>Modelled from the spec: \<^verbatim>\<open>FRRConfig.load_configuration\<close>, not among the sources,
  acquires the daemon's current configuration snapshot.\<close>

definition load_configuration :: "string list \<Rightarrow> frr_config" where
  "load_configuration daemon_text = \<lparr>config = daemon_text, committed = []\<rparr>"

text \<open>Modelled from the spec: the sections of a snapshot, for \<^verbatim>\<open>FRRConfig.modify_section\<close>,
  which is not among the sources. A section is a block of text addressed by its anchor:
  it begins at a line that \<^verbatim>\<open>starts\<close> holds of and runs over the lines that continue
  it. Every such section is replaced.\<close>

function replace_sections ::
  "(string \<Rightarrow> bool) \<Rightarrow> (string \<Rightarrow> bool) \<Rightarrow> string list \<Rightarrow> string list \<Rightarrow> string list" where
  "replace_sections starts continues replacement [] = []"
| "replace_sections starts continues replacement (l # ls) =
     (if starts l then
        replacement @ replace_sections starts continues replacement (dropWhile continues ls)
      else l # replace_sections starts continues replacement ls)"
  by pat_completeness auto
termination
  by (relation "measure (\<lambda>(starts, continues, replacement, ls). length ls)")
     (auto simp: less_Suc_eq_le length_dropWhile_le)

text \<open>Modelled from the spec: \<^verbatim>\<open>FRRConfig.modify_section(regex_anchor, replacement_text)\<close>,
  not among the sources. With the empty replacement that \<^verbatim>\<open>apply\<close> passes, every section
  under the anchor is removed from the snapshot if present.\<close>

definition modify_section ::
  "(string \<Rightarrow> string \<Rightarrow> bool) \<Rightarrow> (string \<Rightarrow> bool) \<Rightarrow> string \<Rightarrow> string \<Rightarrow> frr_config \<Rightarrow> frr_config" where
  "modify_section re_match continues start_pattern replacement frr_cfg =
     frr_cfg\<lparr>config :=
       replace_sections (re_match start_pattern) continues (lines_of replacement) (config frr_cfg)\<rparr>"

text \<open>Modelled from the spec: \<^verbatim>\<open>FRRConfig.add_before(regex_anchor, text)\<close>, not among the
  sources. New content that is non-empty is inserted immediately before the anchor
  point, the first line matching the pattern; empty content changes nothing. The spec
  names failures of the daemon for load and commit only, and \<^verbatim>\<open>apply\<close> reads no result
  of the call: a snapshot without anchor point is left as it is.\<close>

definition add_before ::
  "(string \<Rightarrow> string \<Rightarrow> bool) \<Rightarrow> string \<Rightarrow> string \<Rightarrow> frr_config \<Rightarrow> frr_config" where
  "add_before re_match before_pattern addition frr_cfg =
     (if lines_of addition \<noteq> [] \<and> list_ex (re_match before_pattern) (config frr_cfg) then
        frr_cfg\<lparr>config :=
          takeWhile (\<lambda>l. \<not> re_match before_pattern l) (config frr_cfg)
          @ lines_of addition
          @ dropWhile (\<lambda>l. \<not> re_match before_pattern l) (config frr_cfg)\<rparr>
      else frr_cfg)"

text \<open>Modelled from the spec: \<^verbatim>\<open>FRRConfig.commit_configuration\<close>, not among the sources,
  commits the modified snapshot back to the daemon. A failure of the daemon is outside
  the model.\<close>

definition commit_configuration :: "frr_config \<Rightarrow> frr_config" where
  "commit_configuration frr_cfg = frr_cfg\<lparr>committed := committed frr_cfg @ [config frr_cfg]\<rparr>"

section \<open>\<^verbatim>\<open>apply\<close>\<close>

text \<open>The anchors of lines 178, 183 and 185, as the f-strings build them: the VRF suffix
  and the interface name go into the pattern as they are.\<close>

definition router_pattern :: "string \<Rightarrow> string" where
  "router_pattern vrf = ''^router isis '' @ [CHR 0x5C] @ ''S+'' @ vrf @ ''$''"

definition interface_pattern :: "string \<Rightarrow> string \<Rightarrow> string" where
  "interface_pattern interface vrf = ''^interface '' @ interface @ vrf @ ''$''"

definition before_pattern :: string where
  "before_pattern = ''(ip prefix-list .*|route-map .*|line vty)''"

text \<open>Line 176: \<^verbatim>\<open>' vrf ' + isis['vrf']\<close> is defined for a string only.\<close>

definition vrf_suffix :: "config_dict \<Rightarrow> error + string" where
  "vrf_suffix isis =
     (case map_of isis ''vrf'' of
        None \<Rightarrow> Inr []
      | Some (Str v) \<Rightarrow> Inr ('' vrf '' @ v)
      | Some (Lst l) \<Rightarrow> Inl TypeError
      | Some (Dict d) \<Rightarrow> Inl TypeError)"

text \<open>Lines 178 to 183: the sections the handler owns are removed, the router section
  first, then one section for every interface under \<^verbatim>\<open>interface\<close> and under
  \<^verbatim>\<open>interface_removed\<close>.\<close>

definition remove_owned ::
  "(string \<Rightarrow> string \<Rightarrow> bool) \<Rightarrow> (string \<Rightarrow> bool) \<Rightarrow> config_dict \<Rightarrow> string \<Rightarrow> frr_config \<Rightarrow> frr_config" where
  "remove_owned re_match continues isis vrf frr_cfg =
     fold (\<lambda>key cfg.
             case map_of isis key of
               None \<Rightarrow> cfg
             | Some ifaces \<Rightarrow>
                 fold (\<lambda>interface.
                         modify_section re_match continues (interface_pattern interface vrf) [])
                   (py_iter ifaces) cfg)
       [''interface'', ''interface_removed'']
       (modify_section re_match continues (router_pattern vrf) [] frr_cfg)"

text \<open>
  \<^verbatim>\<open>apply\<close> (named \<^verbatim>\<open>apply_config\<close>: \<^verbatim>\<open>apply\<close> is a keyword here), from the snapshot
  that \<^verbatim>\<open>load_configuration\<close> reads to the edited snapshot and the commits made. It can
  raise at line 176 and, when \<^verbatim>\<open>new_frr_config\<close> is missing, at line 185; the result of
  \<^verbatim>\<open>add_before\<close> is not read, and lines 186 to 192 follow in every other case. A
  \<^verbatim>\<open>new_frr_config\<close> that is no string is no text for the daemon interface: the model
  inserts nothing then.
\<close>

definition apply_config ::
  "(string \<Rightarrow> string \<Rightarrow> bool) \<Rightarrow> (string \<Rightarrow> bool) \<Rightarrow> config_dict \<Rightarrow> string list \<Rightarrow> error + frr_config" where
  "apply_config re_match continues isis daemon_text =
     (case vrf_suffix isis of
        Inl e \<Rightarrow> Inl e
      | Inr vrf \<Rightarrow>
          (let frr_cfg = remove_owned re_match continues isis vrf (load_configuration daemon_text)
           in case map_of isis ''new_frr_config'' of
                None \<Rightarrow> Inl (KeyError ''new_frr_config'')
              | Some new_frr_config \<Rightarrow>
                  (let frr_cfg =
                         (case new_frr_config of
                            Str addition \<Rightarrow> add_before re_match before_pattern addition frr_cfg
                          | Lst l \<Rightarrow> frr_cfg
                          | Dict d \<Rightarrow> frr_cfg);
                       frr_cfg = commit_configuration frr_cfg
                   in if new_frr_config = Str [] then
                        Inr (fold (\<lambda>a. commit_configuration) [0, 1, 2, 3, 4 :: nat] frr_cfg)
                      else Inr frr_cfg)))"

section \<open>A matcher and a section rule for the examples\<close>

text \<open>
  The examples below need the two parameters of the daemon interface at concrete
  values. \<^verbatim>\<open>py_match\<close> reads the fragment of Python's regular expressions that the
  handler's patterns are written in (characters, \<^verbatim>\<open>.\<close>, \<^verbatim>\<open>\S\<close>, \<^verbatim>\<open>^\<close>, \<^verbatim>\<open>$\<close>, groups,
  \<^verbatim>\<open>|\<close>, \<^verbatim>\<open>*\<close>, \<^verbatim>\<open>+\<close>, \<^verbatim>\<open>?\<close>) and decides whether a pattern matches a whole line;
  a pattern outside the fragment matches nothing. \<^verbatim>\<open>indented\<close> is the block structure
  of the daemon's language: the lines of a section are indented under its first line.
\<close>

datatype rx =
    Nul | Eps | Bol | Eol | Chr char | Dot | NonSpace
  | Alt rx rx | Seq rx rx | Star rx

fun nullable :: "bool \<Rightarrow> bool \<Rightarrow> rx \<Rightarrow> bool" where
  "nullable at_start at_end Nul = False"
| "nullable at_start at_end Eps = True"
| "nullable at_start at_end Bol = at_start"
| "nullable at_start at_end Eol = at_end"
| "nullable at_start at_end (Chr c) = False"
| "nullable at_start at_end Dot = False"
| "nullable at_start at_end NonSpace = False"
| "nullable at_start at_end (Alt r1 r2) = (nullable at_start at_end r1 \<or> nullable at_start at_end r2)"
| "nullable at_start at_end (Seq r1 r2) = (nullable at_start at_end r1 \<and> nullable at_start at_end r2)"
| "nullable at_start at_end (Star r) = True"

text \<open>What is left to match after the character \<^verbatim>\<open>c\<close> has been read.\<close>

fun deriv :: "bool \<Rightarrow> char \<Rightarrow> rx \<Rightarrow> rx" where
  "deriv at_start c Nul = Nul"
| "deriv at_start c Eps = Nul"
| "deriv at_start c Bol = Nul"
| "deriv at_start c Eol = Nul"
| "deriv at_start c (Chr d) = (if c = d then Eps else Nul)"
| "deriv at_start c Dot = (if c = CHR 0x0A then Nul else Eps)"
| "deriv at_start c NonSpace = (if unicode_space c then Nul else Eps)"
| "deriv at_start c (Alt r1 r2) = Alt (deriv at_start c r1) (deriv at_start c r2)"
| "deriv at_start c (Seq r1 r2) =
     (if nullable at_start False r1 then
        Alt (Seq (deriv at_start c r1) r2) (deriv at_start c r2)
      else Seq (deriv at_start c r1) r2)"
| "deriv at_start c (Star r) = Seq (deriv at_start c r) (Star r)"

fun rx_matches :: "bool \<Rightarrow> rx \<Rightarrow> string \<Rightarrow> bool" where
  "rx_matches at_start r [] = nullable at_start True r"
| "rx_matches at_start r (c # cs) = rx_matches False (deriv at_start c r) cs"

text \<open>The parser keeps the alternatives read so far and the items of the current
  sequence (last item first), and a stack of these for the open groups.\<close>

definition close_group :: "rx list \<times> rx list \<Rightarrow> rx" where
  "close_group g = foldr Alt (fst g) (foldr Seq (rev (snd g)) Eps)"

fun parse_rx :: "rx list \<times> rx list \<Rightarrow> (rx list \<times> rx list) list \<Rightarrow> string \<Rightarrow> rx option" where
  "parse_rx g stack [] = (if stack = [] then Some (close_group g) else None)"
| "parse_rx g stack (c # cs) =
     (if c = CHR ''('' then parse_rx ([], []) (g # stack) cs
      else if c = CHR '')'' then
        (case stack of
           [] \<Rightarrow> None
         | outer # stack' \<Rightarrow> parse_rx (fst outer, close_group g # snd outer) stack' cs)
      else if c = CHR ''|'' then parse_rx (fst g @ [foldr Seq (rev (snd g)) Eps], []) stack cs
      else if c \<in> set ''*+?'' then
        (case snd g of
           [] \<Rightarrow> None
         | r # rs \<Rightarrow>
             parse_rx (fst g,
                 (if c = CHR ''*'' then Star r
                  else if c = CHR ''+'' then Seq r (Star r)
                  else Alt r Eps) # rs) stack cs)
      else if c = CHR ''.'' then parse_rx (fst g, Dot # snd g) stack cs
      else if c = CHR ''^'' then parse_rx (fst g, Bol # snd g) stack cs
      else if c = CHR ''$'' then parse_rx (fst g, Eol # snd g) stack cs
      else if c = CHR 0x5C then
        (case cs of
           [] \<Rightarrow> None
         | d # ds \<Rightarrow>
             if d = CHR ''S'' then parse_rx (fst g, NonSpace # snd g) stack ds
             else if d \<in> set ''.^$*+?()[]{}|-/'' \<or> d = CHR 0x5C then
               parse_rx (fst g, Chr d # snd g) stack ds
             else None)
      else if c \<in> set ''[]{}'' then None
      else parse_rx (fst g, Chr c # snd g) stack cs)"

definition py_match :: "string \<Rightarrow> string \<Rightarrow> bool" where
  "py_match pattern line =
     (case parse_rx ([], []) [] pattern of
        None \<Rightarrow> False
      | Some r \<Rightarrow> rx_matches True r line)"

definition indented :: "string \<Rightarrow> bool" where
  "indented line = (case line of [] \<Rightarrow> False | c # cs \<Rightarrow> c = CHR '' '')"

section \<open>Owned sections\<close>

text \<open>The anchors \<^verbatim>\<open>apply\<close> passes to \<^verbatim>\<open>modify_section\<close>, in the order of the calls.\<close>

definition owned_patterns :: "config_dict \<Rightarrow> string \<Rightarrow> string list" where
  "owned_patterns isis vrf =
     router_pattern vrf #
     concat (map (\<lambda>key. case map_of isis key of
                          None \<Rightarrow> []
                        | Some ifaces \<Rightarrow>
                            map (\<lambda>interface. interface_pattern interface vrf) (py_iter ifaces))
               [''interface'', ''interface_removed''])"

text \<open>The removal of lines 178 to 183 on the lines alone: one pass for every pattern.\<close>

definition remove_all ::
  "(string \<Rightarrow> string \<Rightarrow> bool) \<Rightarrow> (string \<Rightarrow> bool) \<Rightarrow> string list \<Rightarrow> string list \<Rightarrow> string list" where
  "remove_all re_match continues patterns ls =
     fold (\<lambda>p. replace_sections (re_match p) continues []) patterns ls"

text \<open>
  A rendered text made of owned sections only: it does not begin inside a section, and
  each of its lines opens a section under one of the patterns or continues the section
  above it.
\<close>

definition owned_text ::
  "(string \<Rightarrow> string \<Rightarrow> bool) \<Rightarrow> (string \<Rightarrow> bool) \<Rightarrow> string list \<Rightarrow> string list \<Rightarrow> bool" where
  "owned_text re_match continues patterns ls =
     ((case ls of [] \<Rightarrow> True | l # rest \<Rightarrow> \<not> continues l)
      \<and> list_all (\<lambda>l. continues l \<or> list_ex (\<lambda>p. re_match p l) patterns) ls)"

section \<open>Example inputs\<close>

text \<open>A host on which no interface has a master.\<close>

definition no_host :: "string \<Rightarrow> (string \<times> string) list" where
  "no_host interface = []"

text \<open>The smallest dictionary that passes the mandatory-key rules, and extensions of it.\<close>

definition isis_base :: config_dict where
  "isis_base =
     [(''domain'', Str ''FOO''), (''net'', Str ''49.0001.1921.6800.1002.00''),
      (''interface'', Dict [(''eth0'', Dict [])])]"

definition isis_redistribute :: config_dict where
  "isis_redistribute =
     isis_base @ [(''redistribute'', Dict [(''ipv4'', Dict [(''bgp'', Dict [])])])]"

definition isis_both_flags :: config_dict where
  "isis_both_flags =
     isis_base @ [(''area_password'', Str ''secret''),
                  (''encryption'', Dict [(''md5'', Dict []), (''plaintext_password'', Dict [])])]"

definition isis_no_encryption :: config_dict where
  "isis_no_encryption = isis_base @ [(''area_password'', Str ''secret'')]"

definition isis_spf :: "(string \<times> cfg) list \<Rightarrow> config_dict" where
  "isis_spf timers = isis_base @ [(''spf_delay_ietf'', Dict timers)]"

definition all_timers :: "(string \<times> cfg) list" where
  "all_timers =
     [(''holddown'', Str ''10''), (''init_delay'', Str ''50''), (''long_delay'', Str ''200''),
      (''short_delay'', Str ''100''), (''time_to_learn'', Str ''75'')]"

definition isis_global_block :: "(string \<times> cfg) list \<Rightarrow> config_dict" where
  "isis_global_block labels =
     isis_base @ [(''segment_routing'', Dict [(''global_block'', Dict labels)])]"

definition isis_local_block :: "(string \<times> cfg) list \<Rightarrow> config_dict" where
  "isis_local_block labels =
     isis_base @ [(''segment_routing'', Dict [(''local_block'', Dict labels)])]"

text \<open>Two rendered configurations: the first begins with a comment line, the second holds
  the interface and the router section only.\<close>

definition rendered_with_comment :: string where
  "rendered_with_comment =
     ''!'' @ [CHR 0x0A] @ ''router isis FOO'' @ [CHR 0x0A] @ '' net 49.0001.1921.6800.1002.00''"

definition rendered_sections :: string where
  "rendered_sections =
     ''interface eth0'' @ [CHR 0x0A] @ '' ip router isis FOO'' @ [CHR 0x0A]
     @ ''router isis FOO'' @ [CHR 0x0A] @ '' net 49.0001.1921.6800.1002.00''"

definition isis_comment :: config_dict where
  "isis_comment = isis_base @ [(''new_frr_config'', Str rendered_with_comment)]"

definition isis_sections :: config_dict where
  "isis_sections =
     isis_base @ [(''interface_removed'', Lst [''eth1'']),
                  (''new_frr_config'', Str rendered_sections)]"

definition isis_removal :: config_dict where
  "isis_removal =
     [(''interface_removed'', Lst [''eth0'', ''eth1'']), (''deleted'', Str []),
      (''new_frr_config'', Str [])]"

definition daemon_text0 :: "string list" where
  "daemon_text0 =
     [''interface eth0'', '' ip router isis OLD'',
      ''interface eth1'', '' ip router isis OLD'',
      ''interface eth2'', '' description uplink'',
      ''router isis OLD'', '' net 49.0002.0000.0000.0001.00'',
      ''line vty'', ''!'']"

definition applied_sections :: frr_config where
  "applied_sections =
     \<lparr>config =
        [''interface eth2'', '' description uplink'',
         ''interface eth0'', '' ip router isis FOO'',
         ''router isis FOO'', '' net 49.0001.1921.6800.1002.00'',
         ''line vty'', ''!''],
      committed =
        [[''interface eth2'', '' description uplink'',
          ''interface eth0'', '' ip router isis FOO'',
          ''router isis FOO'', '' net 49.0001.1921.6800.1002.00'',
          ''line vty'', ''!'']]\<rparr>"

definition applied_removal :: frr_config where
  "applied_removal =
     \<lparr>config = [''interface eth2'', '' description uplink'', ''line vty'', ''!''],
      committed =
        replicate 6 [''interface eth2'', '' description uplink'', ''line vty'', ''!'']\<rparr>"

section \<open>Properties of \<^verbatim>\<open>verify\<close>\<close>

subsection \<open>Auxiliary facts\<close>

lemma first_error_append:
  "first_error (xs @ ys) = (case first_error xs of Inl e \<Rightarrow> Inl e | Inr u \<Rightarrow> first_error ys)"
  by (induction xs rule: first_error.induct) simp_all

lemma first_error_take_drop:
  "first_error (take k cs) = Inr () \<Longrightarrow> first_error cs = first_error (drop k cs)"
  using first_error_append [of "take k cs" "drop k cs"] by simp

lemma check_interfaces_result:
  "check_interfaces gic isis ifs = Inr () \<or> raises_config_error (check_interfaces gic isis ifs)"
  by (induction ifs) (auto split: option.splits simp: Let_def)

lemma check_mandatory_result:
  "check_mandatory isis = Inr () \<or> raises_config_error (check_mandatory isis)"
  by (simp add: check_mandatory_def)

lemma check_label_block_unfold:
  assumes "truthy (dict_search (''segment_routing.'' @ block) isis)"
    and "low = dict_search (''segment_routing.'' @ block @ ''.low_label_value'') isis"
    and "high = dict_search (''segment_routing.'' @ block @ ''.high_label_value'') isis"
  shows "check_label_block block msg_both msg_order isis =
           (if truthy low \<noteq> truthy high then Inl (ConfigError msg_both)
            else case py_int low of
                   Inl e \<Rightarrow> Inl e
                 | Inr a \<Rightarrow> (case py_int high of
                               Inl e \<Rightarrow> Inl e
                             | Inr b \<Rightarrow> if a > b then Inl (ConfigError msg_order) else Inr ()))"
  using assms by (auto simp: check_label_block_def Let_def)

lemma py_int_truthy: "py_int v = Inr a \<Longrightarrow> truthy v"
  by (cases v rule: py_int.cases) (auto simp: int_of_string_def strip_def split: option.splits)

text \<open>When the rules before a label block pass, the result of \<^verbatim>\<open>verify\<close> is that of the
  block's check and, if it passes, of the rules after it.\<close>

lemma verify_at_label_block:
  assumes "isis \<noteq> []" and "\<not> has_key isis ''deleted''"
    and "block = ''global_block'' \<and> k = 5 \<or> block = ''local_block'' \<and> k = 6"
    and "first_error (take k (verify_rules get_interface_config isis)) = Inr ()"
  shows "\<exists>msg_both msg_order.
           verify get_interface_config isis =
             (case check_label_block block msg_both msg_order isis of
                Inl e \<Rightarrow> Inl e
              | Inr u \<Rightarrow> first_error (drop (Suc k) (verify_rules get_interface_config isis)))"
proof -
  have v: "verify get_interface_config isis
             = first_error (drop k (verify_rules get_interface_config isis))"
    using first_error_take_drop [OF assms(4)] assms(1,2) by (simp add: verify_def)
  from assms(3) show ?thesis
  proof (elim disjE conjE)
    assume b: "block = ''global_block''" "k = 5"
    have "verify get_interface_config isis =
       (case check_label_block block
               ''Segment routing global block requires both low and high value!''
               ''Segment routing global block low value must be lower than high value'' isis of
          Inl e \<Rightarrow> Inl e
        | Inr u \<Rightarrow> first_error (drop (Suc k) (verify_rules get_interface_config isis)))"
      unfolding v b by (simp add: verify_rules_def check_global_block_def split: sum.splits)
    then show ?thesis by blast
  next
    assume b: "block = ''local_block''" "k = 6"
    have "verify get_interface_config isis =
       (case check_label_block block
               ''Segment routing local block requires both high and low value!''
               ''Segment routing local block low value must be lower than high value'' isis of
          Inl e \<Rightarrow> Inl e
        | Inr u \<Rightarrow> first_error (drop (Suc k) (verify_rules get_interface_config isis)))"
      unfolding v b by (simp add: verify_rules_def check_local_block_def split: sum.splits)
    then show ?thesis by blast
  qed
qed

subsection \<open>The early return\<close>

text \<open>
  Claim C7. For every dictionary that is empty or has the key \<^verbatim>\<open>deleted\<close>, \<^verbatim>\<open>verify\<close>
  returns \<^verbatim>\<open>None\<close> without raising, whatever else the dictionary holds or lacks: no
  rule is evaluated.
\<close>

theorem verify_deleted:
  "isis = [] \<or> has_key isis ''deleted'' \<Longrightarrow> verify get_interface_config isis = Inr ()"
  by (simp add: verify_def)

theorem verify_deleted_witness:
  "verify no_host [] = Inr ()
   \<and> verify no_host [(''deleted'', Str []), (''area_password'', Str ''secret'')] = Inr ()"
  using verify_deleted [of "[]" no_host]
    verify_deleted [of "[(''deleted'', Str []), (''area_password'', Str ''secret'')]" no_host]
  by (simp add: has_key_def)

subsection \<open>Mandatory keys\<close>

text \<open>
  Claim C5. For every non-empty dictionary without \<^verbatim>\<open>deleted\<close> that lacks one of
  \<^verbatim>\<open>domain\<close>, \<^verbatim>\<open>net\<close> and \<^verbatim>\<open>interface\<close>, \<^verbatim>\<open>verify\<close> raises a \<^verbatim>\<open>ConfigError\<close> whose message
  names the missing field; the keys are checked in the order \<^verbatim>\<open>domain\<close>, \<^verbatim>\<open>net\<close>,
  \<^verbatim>\<open>interface\<close>, and the first one missing decides the message.
\<close>

theorem verify_mandatory:
  assumes "isis \<noteq> []" and "\<not> has_key isis ''deleted''"
    and "\<not> (has_key isis ''domain'' \<and> has_key isis ''net'' \<and> has_key isis ''interface'')"
  shows "verify get_interface_config isis =
           Inl (ConfigError
             (if \<not> has_key isis ''domain'' then ''Routing domain name/tag must be set!''
              else if \<not> has_key isis ''net'' then ''Network entity is mandatory!''
              else ''Interface used for routing updates is mandatory!''))"
  using assms by (auto simp: verify_def verify_rules_def check_mandatory_def)

theorem verify_mandatory_witness:
  "verify no_host [(''domain'', Str ''FOO''), (''interface'', Dict [(''eth0'', Dict [])])]
     = Inl (ConfigError ''Network entity is mandatory!'')"
  using verify_mandatory
          [of "[(''domain'', Str ''FOO''), (''interface'', Dict [(''eth0'', Dict [])])]" no_host]
  by (simp add: has_key_def)

subsection \<open>Area password\<close>

text \<open>
  Claim C6, as stated, fails on a dictionary that also has the key \<^verbatim>\<open>deleted\<close>: the early
  return comes first and nothing is raised.
\<close>

theorem verify_area_password_counterexample:
  "has_key ((''deleted'', Str []) # isis_both_flags) ''area_password''
   \<and> verify no_host ((''deleted'', Str []) # isis_both_flags) = Inr ()"
  by code_simp

text \<open>
  Claim C6, amended. For every dictionary without the key \<^verbatim>\<open>deleted\<close> that has
  \<^verbatim>\<open>area_password\<close> and whose \<^verbatim>\<open>encryption\<close> entry holds both \<^verbatim>\<open>md5\<close> and
  \<^verbatim>\<open>plaintext_password\<close>, \<^verbatim>\<open>verify\<close> raises a \<^verbatim>\<open>ConfigError\<close>.
\<close>

theorem verify_area_password:
  assumes "\<not> has_key isis ''deleted''" and "has_key isis ''area_password''"
    and "map_of isis ''encryption'' = Some enc"
    and "{''md5'', ''plaintext_password''} \<subseteq> set (py_iter enc)"
  shows "raises_config_error (verify get_interface_config isis)"
proof -
  have ne: "isis \<noteq> []" using assms(2) by (auto simp: has_key_def)
  have ap: "raises_config_error (check_area_password isis)"
    using assms by (simp add: check_area_password_def)
  show ?thesis
  proof (cases "check_mandatory isis")
    case (Inl e)
    then show ?thesis using check_mandatory_result [of isis] ne assms(1)
      by (auto simp: verify_def verify_rules_def)
  next
    case (Inr u)
    then have "has_key isis ''interface''"
      by (auto simp: check_mandatory_def split: if_splits)
    then obtain ifaces where i: "map_of isis ''interface'' = Some ifaces"
      by (auto simp: has_key_def)
    show ?thesis
    proof (cases "check_interfaces get_interface_config isis (py_iter ifaces)")
      case (Inl e)
      then show ?thesis
        using check_interfaces_result [of get_interface_config isis "py_iter ifaces"]
          ne assms(1) Inr i
        by (auto simp: verify_def verify_rules_def check_vrf_members_def)
    next
      case (Inr v)
      then show ?thesis using ne assms(1) \<open>check_mandatory isis = Inr u\<close> i ap
        by (cases "check_area_password isis")
           (auto simp: verify_def verify_rules_def check_vrf_members_def)
    qed
  qed
qed

theorem verify_area_password_witness:
  "verify no_host isis_both_flags
     = Inl (ConfigError ''Can not use both md5 and plaintext-password for ISIS area-password!'')
   \<and> raises_config_error (verify no_host isis_both_flags)"
proof -
  have 1: "\<not> has_key isis_both_flags ''deleted''" by code_simp
  have 2: "has_key isis_both_flags ''area_password''" by code_simp
  have 3: "map_of isis_both_flags ''encryption''
             = Some (Dict [(''md5'', Dict []), (''plaintext_password'', Dict [])])" by code_simp
  have 4: "{''md5'', ''plaintext_password''}
             \<subseteq> set (py_iter (Dict [(''md5'', Dict []), (''plaintext_password'', Dict [])]))"
    by simp
  have 5: "verify no_host isis_both_flags
     = Inl (ConfigError ''Can not use both md5 and plaintext-password for ISIS area-password!'')"
    by code_simp
  from verify_area_password [OF 1 2 3 4, of no_host] 5 show ?thesis by simp
qed

text \<open>
  Claim C9, as stated, fails on a dictionary that has the key \<^verbatim>\<open>deleted\<close> (\<^verbatim>\<open>verify\<close>
  returns) and on one that lacks \<^verbatim>\<open>domain\<close> (a \<^verbatim>\<open>ConfigError\<close> is raised before the
  area-password rule is reached).
\<close>

theorem verify_area_password_no_encryption_counterexample:
  "verify no_host [(''deleted'', Str []), (''area_password'', Str ''secret'')] = Inr ()
   \<and> verify no_host [(''area_password'', Str ''secret'')]
       = Inl (ConfigError ''Routing domain name/tag must be set!'')"
  by code_simp

text \<open>
  Claim C9, amended. For every non-empty dictionary without \<^verbatim>\<open>deleted\<close> on which the
  rules before the area-password rule pass (the mandatory keys are there and every
  interface is a member of the VRF), that has \<^verbatim>\<open>area_password\<close> and lacks
  \<^verbatim>\<open>encryption\<close>, \<^verbatim>\<open>verify\<close> neither returns nor raises a \<^verbatim>\<open>ConfigError\<close>: the subscript
  \<^verbatim>\<open>isis['encryption']\<close> raises \<^verbatim>\<open>KeyError\<close>.
\<close>

theorem verify_area_password_no_encryption:
  assumes "isis \<noteq> []" and "\<not> has_key isis ''deleted''"
    and "first_error (take 2 (verify_rules get_interface_config isis)) = Inr ()"
    and "has_key isis ''area_password''" and "\<not> has_key isis ''encryption''"
  shows "verify get_interface_config isis = Inl (KeyError ''encryption'')"
proof -
  have "check_area_password isis = Inl (KeyError ''encryption'')"
    using assms(4,5) by (simp add: check_area_password_def has_key_def)
  then have "first_error (drop 2 (verify_rules get_interface_config isis))
               = Inl (KeyError ''encryption'')"
    by (simp add: verify_rules_def)
  then show ?thesis
    using first_error_take_drop [OF assms(3)] assms(1,2) by (simp add: verify_def)
qed

theorem verify_area_password_no_encryption_witness:
  "verify no_host isis_no_encryption = Inl (KeyError ''encryption'')"
proof -
  have 1: "isis_no_encryption \<noteq> []" by code_simp
  have 2: "\<not> has_key isis_no_encryption ''deleted''" by code_simp
  have 3: "first_error (take 2 (verify_rules no_host isis_no_encryption)) = Inr ()"
    by code_simp
  have 4: "has_key isis_no_encryption ''area_password''" by code_simp
  have 5: "\<not> has_key isis_no_encryption ''encryption''" by code_simp
  from verify_area_password_no_encryption [OF 1 2 3 4 5] show ?thesis .
qed

subsection \<open>SPF delay timers\<close>

text \<open>
  Claim C4, as stated, fails on a dictionary whose \<^verbatim>\<open>spf_delay_ietf\<close> entry holds no
  timer at all: the claim has no requirement there, the rule raises. It also fails on a
  dictionary with all five timers that lacks \<^verbatim>\<open>domain\<close>: a \<^verbatim>\<open>ConfigError\<close> is raised,
  by an earlier rule.
\<close>

theorem verify_spf_delay_counterexample:
  "verify no_host (isis_spf []) = check_spf_delay (isis_spf [])
   \<and> raises_config_error (check_spf_delay (isis_spf []))
   \<and> verify no_host [(''spf_delay_ietf'', Dict all_timers)]
       = Inl (ConfigError ''Routing domain name/tag must be set!'')"
  by code_simp

text \<open>
  Claim C4, amended. For every non-empty dictionary without \<^verbatim>\<open>deleted\<close> that has the key
  \<^verbatim>\<open>spf_delay_ietf\<close> and on which the rules before the timer rule pass, \<^verbatim>\<open>verify\<close>
  raises a \<^verbatim>\<open>ConfigError\<close> if some member of the group \<^verbatim>\<open>holddown\<close>, \<^verbatim>\<open>init_delay\<close>,
  \<^verbatim>\<open>long_delay\<close>, \<^verbatim>\<open>short_delay\<close>, \<^verbatim>\<open>time_to_learn\<close> is absent under
  \<^verbatim>\<open>spf_delay_ietf\<close>, also when none is present; if all five are present the rule raises
  nothing and the result is that of the rules after it.
\<close>

theorem verify_spf_delay:
  assumes "isis \<noteq> []" and "\<not> has_key isis ''deleted''"
    and "first_error (take 3 (verify_rules get_interface_config isis)) = Inr ()"
    and "map_of isis ''spf_delay_ietf'' = Some spf"
  shows "if \<exists>t \<in> set required_timers. \<not> py_in t spf
         then raises_config_error (verify get_interface_config isis)
         else verify get_interface_config isis
                = first_error (drop 4 (verify_rules get_interface_config isis))"
proof -
  have m: "(missing_timers spf \<noteq> []) = (\<exists>t \<in> set required_timers. \<not> py_in t spf)"
    by (auto simp: missing_timers_def filter_empty_conv)
  have "verify get_interface_config isis
          = first_error (drop 3 (verify_rules get_interface_config isis))"
    using first_error_take_drop [OF assms(3)] assms(1,2) by (simp add: verify_def)
  also have "\<dots> = (if missing_timers spf \<noteq> [] then
              Inl (ConfigError (''All types of delay must be specified: ''
                     @ replace_char CHR ''_'' CHR ''-'' (join '', '' (missing_timers spf))))
            else first_error (drop 4 (verify_rules get_interface_config isis)))"
    using assms(4) by (simp add: verify_rules_def check_spf_delay_def)
  finally show ?thesis using m by simp
qed

theorem verify_spf_delay_witness:
  "raises_config_error (verify no_host (isis_spf [(''holddown'', Str ''10'')]))
   \<and> verify no_host (isis_spf all_timers) = Inr ()"
proof -
  have a: "raises_config_error (verify no_host (isis_spf [(''holddown'', Str ''10'')]))"
  proof -
    have 1: "isis_spf [(''holddown'', Str ''10'')] \<noteq> []" by code_simp
    have 2: "\<not> has_key (isis_spf [(''holddown'', Str ''10'')]) ''deleted''" by code_simp
    have 3: "first_error (take 3 (verify_rules no_host (isis_spf [(''holddown'', Str ''10'')])))
               = Inr ()" by code_simp
    have 4: "map_of (isis_spf [(''holddown'', Str ''10'')]) ''spf_delay_ietf''
               = Some (Dict [(''holddown'', Str ''10'')])" by code_simp
    have 5: "\<exists>t \<in> set required_timers. \<not> py_in t (Dict [(''holddown'', Str ''10'')])"
      by code_simp
    from verify_spf_delay [OF 1 2 3 4] 5 show ?thesis by simp
  qed
  have b: "verify no_host (isis_spf all_timers) = Inr ()"
  proof -
    have 1: "isis_spf all_timers \<noteq> []" by code_simp
    have 2: "\<not> has_key (isis_spf all_timers) ''deleted''" by code_simp
    have 3: "first_error (take 3 (verify_rules no_host (isis_spf all_timers))) = Inr ()"
      by code_simp
    have 4: "map_of (isis_spf all_timers) ''spf_delay_ietf'' = Some (Dict all_timers)"
      by code_simp
    have 5: "\<not> (\<exists>t \<in> set required_timers. \<not> py_in t (Dict all_timers))" by code_simp
    have 6: "first_error (drop 4 (verify_rules no_host (isis_spf all_timers))) = Inr ()"
      by code_simp
    from verify_spf_delay [OF 1 2 3 4] 5 6 show ?thesis by simp
  qed
  from a b show ?thesis by simp
qed

subsection \<open>Redistribution levels\<close>

text \<open>
  Claim C3. A failing rule of \<^verbatim>\<open>verify\<close> raises a \<^verbatim>\<open>ConfigError\<close> with a message that
  names the offending path; in particular a \<^verbatim>\<open>redistribute.ipv4\<close> protocol entry with
  neither \<^verbatim>\<open>level_1\<close> nor \<^verbatim>\<open>level_2\<close> does. The source does not: on the dictionary
  \<^verbatim>\<open>isis_redistribute\<close> the rule is reached and fails, and building its message ends in
  \<^verbatim>\<open>NameError\<close>, since line 125 reads the undefined name \<^verbatim>\<open>process\<close>.
\<close>

theorem verify_redistribute_name_error:
  "verify no_host isis_redistribute = Inl (NameError ''process'')"
  by code_simp

subsection \<open>Segment routing label blocks\<close>

text \<open>
  Claim C2, as stated, fails on a block whose only label is present with the empty
  string as its value: exactly one of the two labels is present, the guard of line 138
  reads both as false, and \<^verbatim>\<open>int('')\<close> raises \<^verbatim>\<open>ValueError\<close>. It also fails where the
  block's check is not reached: on a dictionary with the key \<^verbatim>\<open>deleted\<close>, on which
  \<^verbatim>\<open>verify\<close> returns, and on one where an earlier rule ends in another exception.
\<close>

theorem verify_segment_routing_counterexample:
  "verify no_host (isis_global_block [(''low_label_value'', Str [])]) = Inl ValueError
   \<and> verify no_host ((''deleted'', Str []) # isis_global_block [(''low_label_value'', Str ''16000'')])
       = Inr ()
   \<and> verify no_host
         (isis_no_encryption
          @ [(''segment_routing'', Dict [(''global_block'', Dict [(''low_label_value'', Str ''16000'')])])])
       = Inl (KeyError ''encryption'')"
  by code_simp

text \<open>
  Claim C2, amended. Take a non-empty dictionary without \<^verbatim>\<open>deleted\<close> whose
  \<^verbatim>\<open>segment_routing.global_block\<close> (respectively \<^verbatim>\<open>segment_routing.local_block\<close>) entry is
  present and non-empty, and on which the rules before that block's check pass (the
  first five rules, and for the local block the global block's check as well). Then
  \<^verbatim>\<open>verify\<close> raises a \<^verbatim>\<open>ConfigError\<close> if exactly one of \<^verbatim>\<open>low_label_value\<close> and
  \<^verbatim>\<open>high_label_value\<close> has a non-empty value (the other is absent or empty); it raises a
  \<^verbatim>\<open>ConfigError\<close> if both are integers and low is greater than high; and if both are
  integers and low is at most high, the block's check raises nothing: the result is that
  of the rules after it.
\<close>

theorem verify_segment_routing:
  assumes "isis \<noteq> []" and "\<not> has_key isis ''deleted''"
    and "block = ''global_block'' \<and> k = 5 \<or> block = ''local_block'' \<and> k = 6"
    and "first_error (take k (verify_rules get_interface_config isis)) = Inr ()"
    and "truthy (dict_search (''segment_routing.'' @ block) isis)"
    and "low = dict_search (''segment_routing.'' @ block @ ''.low_label_value'') isis"
    and "high = dict_search (''segment_routing.'' @ block @ ''.high_label_value'') isis"
  shows "(truthy low \<noteq> truthy high \<longrightarrow> raises_config_error (verify get_interface_config isis))
       \<and> (\<forall>a b. py_int low = Inr a \<and> py_int high = Inr b \<and> a > b \<longrightarrow>
            raises_config_error (verify get_interface_config isis))
       \<and> (\<forall>a b. py_int low = Inr a \<and> py_int high = Inr b \<and> a \<le> b \<longrightarrow>
            verify get_interface_config isis
              = first_error (drop (Suc k) (verify_rules get_interface_config isis)))"
proof -
  obtain msg_both msg_order where v:
    "verify get_interface_config isis =
       (case check_label_block block msg_both msg_order isis of
          Inl e \<Rightarrow> Inl e
        | Inr u \<Rightarrow> first_error (drop (Suc k) (verify_rules get_interface_config isis)))"
    using verify_at_label_block [OF assms(1-4)] by blast
  note u = check_label_block_unfold [OF assms(5-7), of msg_both msg_order]
  have a: "truthy low \<noteq> truthy high \<Longrightarrow> raises_config_error (verify get_interface_config isis)"
    unfolding v u by simp
  have t: "truthy low = truthy high" if "py_int low = Inr a" "py_int high = Inr b" for a b
    using that py_int_truthy by blast
  have b: "raises_config_error (verify get_interface_config isis)"
    if "py_int low = Inr a" "py_int high = Inr b" "a > b" for a b
    unfolding v u using that t [OF that(1,2)] by simp
  have c: "verify get_interface_config isis
              = first_error (drop (Suc k) (verify_rules get_interface_config isis))"
    if "py_int low = Inr a" "py_int high = Inr b" "a \<le> b" for a b
    unfolding v u using that t [OF that(1,2)] by simp
  from a b c show ?thesis by blast
qed

theorem verify_segment_routing_witness:
  "raises_config_error (verify no_host (isis_global_block [(''low_label_value'', Str ''16000'')]))
   \<and> raises_config_error
       (verify no_host (isis_local_block
          [(''low_label_value'', Str ''2000''), (''high_label_value'', Str ''1000'')]))
   \<and> verify no_host (isis_global_block
          [(''low_label_value'', Str ''16000''), (''high_label_value'', Str ''23999'')]) = Inr ()"
proof -
  let ?one = "isis_global_block [(''low_label_value'', Str ''16000'')]"
  let ?swapped = "isis_local_block
          [(''low_label_value'', Str ''2000''), (''high_label_value'', Str ''1000'')]"
  let ?good = "isis_global_block
          [(''low_label_value'', Str ''16000''), (''high_label_value'', Str ''23999'')]"
  have a: "raises_config_error (verify no_host ?one)"
  proof -
    have 1: "?one \<noteq> []" by code_simp
    have 2: "\<not> has_key ?one ''deleted''" by code_simp
    have 3: "first_error (take 5 (verify_rules no_host ?one)) = Inr ()" by code_simp
    have 4: "truthy (dict_search (''segment_routing.'' @ ''global_block'') ?one)" by code_simp
    have 5: "truthy (dict_search (''segment_routing.'' @ ''global_block'' @ ''.low_label_value'') ?one)
             \<noteq> truthy (dict_search (''segment_routing.'' @ ''global_block'' @ ''.high_label_value'') ?one)"
      by code_simp
    from verify_segment_routing [OF 1 2 _ 3 4 refl refl] 5 show ?thesis by blast
  qed
  have b: "raises_config_error (verify no_host ?swapped)"
  proof -
    have 1: "?swapped \<noteq> []" by code_simp
    have 2: "\<not> has_key ?swapped ''deleted''" by code_simp
    have 3: "first_error (take 6 (verify_rules no_host ?swapped)) = Inr ()" by code_simp
    have 4: "truthy (dict_search (''segment_routing.'' @ ''local_block'') ?swapped)" by code_simp
    have 5: "py_int (dict_search (''segment_routing.'' @ ''local_block'' @ ''.low_label_value'') ?swapped)
               = Inr 2000
             \<and> py_int (dict_search (''segment_routing.'' @ ''local_block'' @ ''.high_label_value'') ?swapped)
               = Inr 1000 \<and> (2000 :: int) > 1000"
      by code_simp
    from verify_segment_routing [OF 1 2 _ 3 4 refl refl] 5 show ?thesis by blast
  qed
  have c: "verify no_host ?good = Inr ()"
  proof -
    have 1: "?good \<noteq> []" by code_simp
    have 2: "\<not> has_key ?good ''deleted''" by code_simp
    have 3: "first_error (take 5 (verify_rules no_host ?good)) = Inr ()" by code_simp
    have 4: "truthy (dict_search (''segment_routing.'' @ ''global_block'') ?good)" by code_simp
    have 5: "py_int (dict_search (''segment_routing.'' @ ''global_block'' @ ''.low_label_value'') ?good)
               = Inr 16000
             \<and> py_int (dict_search (''segment_routing.'' @ ''global_block'' @ ''.high_label_value'') ?good)
               = Inr 23999 \<and> (16000 :: int) \<le> 23999"
      by code_simp
    have 6: "first_error (drop (Suc 5) (verify_rules no_host ?good)) = Inr ()" by code_simp
    from verify_segment_routing [OF 1 2 _ 3 4 refl refl] 5
    have "verify no_host ?good = first_error (drop (Suc 5) (verify_rules no_host ?good))"
      by blast
    then show ?thesis using 6 by simp
  qed
  from a b c show ?thesis by simp
qed

text \<open>
  Claim C10, as stated, fails on a dictionary with the key \<^verbatim>\<open>deleted\<close>, on which
  \<^verbatim>\<open>verify\<close> returns, and on one that lacks \<^verbatim>\<open>domain\<close>, on which a \<^verbatim>\<open>ConfigError\<close> is
  raised before the label blocks are looked at.
\<close>

theorem verify_labels_absent_counterexample:
  "verify no_host ((''deleted'', Str []) # isis_global_block [(''prefix'', Str ''x'')]) = Inr ()
   \<and> verify no_host [(''segment_routing'', Dict [(''global_block'', Dict [(''prefix'', Str ''x'')])])]
       = Inl (ConfigError ''Routing domain name/tag must be set!'')"
  by code_simp

text \<open>
  Claim C10, amended. Take a non-empty dictionary without \<^verbatim>\<open>deleted\<close> whose
  \<^verbatim>\<open>segment_routing.global_block\<close> (or \<^verbatim>\<open>segment_routing.local_block\<close>) entry is present
  and non-empty but holds neither \<^verbatim>\<open>low_label_value\<close> nor \<^verbatim>\<open>high_label_value\<close>, and on
  which the rules before that block's check pass. Then \<^verbatim>\<open>verify\<close> neither returns nor
  raises a \<^verbatim>\<open>ConfigError\<close>: the guard of the block passes and \<^verbatim>\<open>int(None)\<close> raises
  \<^verbatim>\<open>TypeError\<close>.
\<close>

theorem verify_labels_absent:
  assumes "isis \<noteq> []" and "\<not> has_key isis ''deleted''"
    and "block = ''global_block'' \<and> k = 5 \<or> block = ''local_block'' \<and> k = 6"
    and "first_error (take k (verify_rules get_interface_config isis)) = Inr ()"
    and "truthy (dict_search (''segment_routing.'' @ block) isis)"
    and "dict_search (''segment_routing.'' @ block @ ''.low_label_value'') isis = None"
    and "dict_search (''segment_routing.'' @ block @ ''.high_label_value'') isis = None"
  shows "verify get_interface_config isis = Inl TypeError"
proof -
  obtain msg_both msg_order where v:
    "verify get_interface_config isis =
       (case check_label_block block msg_both msg_order isis of
          Inl e \<Rightarrow> Inl e
        | Inr u \<Rightarrow> first_error (drop (Suc k) (verify_rules get_interface_config isis)))"
    using verify_at_label_block [OF assms(1-4)] by blast
  show ?thesis
    unfolding v check_label_block_unfold [OF assms(5) assms(6) [symmetric] assms(7) [symmetric]]
    by simp
qed

theorem verify_labels_absent_witness:
  "verify no_host (isis_global_block [(''prefix'', Str ''x'')]) = Inl TypeError
   \<and> verify no_host (isis_local_block [(''prefix'', Str ''x'')]) = Inl TypeError"
proof -
  let ?g = "isis_global_block [(''prefix'', Str ''x'')]"
  let ?l = "isis_local_block [(''prefix'', Str ''x'')]"
  have g1: "?g \<noteq> []" by code_simp
  have g2: "\<not> has_key ?g ''deleted''" by code_simp
  have g3: "first_error (take 5 (verify_rules no_host ?g)) = Inr ()" by code_simp
  have g4: "truthy (dict_search (''segment_routing.'' @ ''global_block'') ?g)" by code_simp
  have g5: "dict_search (''segment_routing.'' @ ''global_block'' @ ''.low_label_value'') ?g = None"
    by code_simp
  have g6: "dict_search (''segment_routing.'' @ ''global_block'' @ ''.high_label_value'') ?g = None"
    by code_simp
  have l1: "?l \<noteq> []" by code_simp
  have l2: "\<not> has_key ?l ''deleted''" by code_simp
  have l3: "first_error (take 6 (verify_rules no_host ?l)) = Inr ()" by code_simp
  have l4: "truthy (dict_search (''segment_routing.'' @ ''local_block'') ?l)" by code_simp
  have l5: "dict_search (''segment_routing.'' @ ''local_block'' @ ''.low_label_value'') ?l = None"
    by code_simp
  have l6: "dict_search (''segment_routing.'' @ ''local_block'' @ ''.high_label_value'') ?l = None"
    by code_simp
  from verify_labels_absent [OF g1 g2 _ g3 g4 g5 g6] verify_labels_absent [OF l1 l2 _ l3 l4 l5 l6]
  show ?thesis by simp
qed

section \<open>Properties of \<^verbatim>\<open>apply\<close>\<close>

subsection \<open>Removing sections\<close>

lemma set_replace_sections:
  "set (replace_sections P c [] ls) \<subseteq> set ls"
proof (induction P c "[] :: string list" ls rule: replace_sections.induct)
  case (1 P c)
  then show ?case by simp
next
  case (2 P c l ls)
  then show ?case by (auto dest: set_dropWhileD)
qed

lemma replace_sections_none_left:
  "l \<in> set (replace_sections P c [] ls) \<Longrightarrow> \<not> P l"
proof (induction P c "[] :: string list" ls rule: replace_sections.induct)
  case (1 P c)
  then show ?case by simp
next
  case (2 P c x ls)
  then show ?case by (auto split: if_splits)
qed

lemma replace_sections_id:
  "(\<forall>l \<in> set ls. \<not> P l) \<Longrightarrow> replace_sections P c [] ls = ls"
  by (induction ls) auto

lemma replace_sections_prefix:
  "(\<forall>l \<in> set pre. \<not> P l) \<Longrightarrow>
     replace_sections P c [] (pre @ xs) = pre @ replace_sections P c [] xs"
  by (induction pre) auto

lemma replace_sections_suffix:
  assumes "post = [] \<or> \<not> c (hd post)" and "\<forall>l \<in> set post. \<not> P l"
  shows "replace_sections P c [] (ls @ post) = replace_sections P c [] ls @ post"
proof (induction ls rule: length_induct)
  case (1 ls)
  show ?case
  proof (cases ls)
    case Nil
    then show ?thesis using assms(2) by (simp add: replace_sections_id)
  next
    case (Cons l rest)
    show ?thesis
    proof (cases "P l")
      case False
      then show ?thesis using Cons 1 by simp
    next
      case True
      have d: "dropWhile c (rest @ post) = dropWhile c rest @ post"
        using assms(1) by (cases post) (auto simp: dropWhile_append)
      have "length (dropWhile c rest) < length ls"
        using Cons by (simp add: less_Suc_eq_le length_dropWhile_le)
      then show ?thesis using Cons True d 1 by simp
    qed
  qed
qed

lemma replace_sections_head:
  "ls = [] \<or> \<not> c (hd ls) \<Longrightarrow>
     replace_sections P c [] ls = [] \<or> \<not> c (hd (replace_sections P c [] ls))"
proof (induction ls rule: length_induct)
  case (1 ls)
  show ?case
  proof (cases ls)
    case Nil
    then show ?thesis by simp
  next
    case (Cons l rest)
    show ?thesis
    proof (cases "P l")
      case False
      then show ?thesis using Cons 1(2) by simp
    next
      case True
      have "length (dropWhile c rest) < length ls"
        using Cons by (simp add: less_Suc_eq_le length_dropWhile_le)
      moreover have "dropWhile c rest = [] \<or> \<not> c (hd (dropWhile c rest))"
        using hd_dropWhile [of c rest] by blast
      ultimately have "replace_sections P c [] (dropWhile c rest) = []
          \<or> \<not> c (hd (replace_sections P c [] (dropWhile c rest)))"
        using 1(1) by blast
      then show ?thesis using Cons True by simp
    qed
  qed
qed

lemma remove_all_simps:
  "remove_all m c [] ls = ls"
  "remove_all m c (p # ps) ls = remove_all m c ps (replace_sections (m p) c [] ls)"
  by (simp_all add: remove_all_def)

lemma remove_all_append:
  "remove_all m c (ps @ qs) ls = remove_all m c qs (remove_all m c ps ls)"
  by (simp add: remove_all_def)

lemma set_remove_all: "set (remove_all m c ps ls) \<subseteq> set ls"
proof (induction ps arbitrary: ls)
  case Nil
  then show ?case by (simp add: remove_all_simps)
next
  case (Cons p ps)
  then show ?case using set_replace_sections [of "m p" c ls]
    by (fastforce simp: remove_all_simps)
qed

lemma remove_all_none_left:
  "p \<in> set ps \<Longrightarrow> l \<in> set (remove_all m c ps ls) \<Longrightarrow> \<not> m p l"
proof (induction ps arbitrary: ls)
  case Nil
  then show ?case by simp
next
  case (Cons q ps)
  show ?case
  proof (cases "p \<in> set ps")
    case True
    then show ?thesis using Cons by (simp add: remove_all_simps)
  next
    case False
    then have "p = q" using Cons.prems(1) by simp
    moreover have "l \<in> set (replace_sections (m q) c [] ls)"
      using Cons.prems(2) set_remove_all [of m c ps] by (auto simp: remove_all_simps)
    ultimately show ?thesis using replace_sections_none_left by blast
  qed
qed

lemma remove_all_id:
  "(\<forall>p \<in> set ps. \<forall>l \<in> set ls. \<not> m p l) \<Longrightarrow> remove_all m c ps ls = ls"
  by (induction ps) (simp_all add: remove_all_simps replace_sections_id)

lemma remove_all_frame:
  assumes "\<forall>p \<in> set ps. \<forall>l \<in> set pre. \<not> m p l"
    and "\<forall>p \<in> set ps. \<forall>l \<in> set post. \<not> m p l"
    and "post = [] \<or> \<not> c (hd post)"
  shows "remove_all m c ps (pre @ mid @ post) = pre @ remove_all m c ps mid @ post"
  using assms(1,2)
proof (induction ps arbitrary: mid)
  case Nil
  then show ?case by (simp add: remove_all_simps)
next
  case (Cons p ps)
  have "replace_sections (m p) c [] (pre @ mid @ post)
          = pre @ replace_sections (m p) c [] mid @ post"
    using Cons.prems assms(3)
    by (simp add: replace_sections_prefix replace_sections_suffix)
  then show ?case using Cons by (simp add: remove_all_simps)
qed

lemma remove_all_owned_text:
  "owned_text m c ps ls \<Longrightarrow> remove_all m c ps ls = []"
proof (induction ps arbitrary: ls)
  case Nil
  then show ?case
    by (cases ls) (auto simp: owned_text_def remove_all_simps)
next
  case (Cons p ps)
  let ?ls = "replace_sections (m p) c [] ls"
  have h: "?ls = [] \<or> \<not> c (hd ?ls)"
    using Cons.prems replace_sections_head [of ls c "m p"]
    by (cases ls) (auto simp: owned_text_def)
  have "\<forall>l \<in> set ?ls. c l \<or> (\<exists>q \<in> set ps. m q l)"
  proof
    fix l assume l: "l \<in> set ?ls"
    then have "l \<in> set ls" using set_replace_sections by blast
    then have "c l \<or> (\<exists>q \<in> set (p # ps). m q l)"
      using Cons.prems by (auto simp: owned_text_def list_all_iff list_ex_iff)
    moreover have "\<not> m p l" using l replace_sections_none_left by blast
    ultimately show "c l \<or> (\<exists>q \<in> set ps. m q l)" by auto
  qed
  then have "owned_text m c ps ?ls"
    using h by (cases ?ls) (auto simp: owned_text_def list_all_iff list_ex_iff)
  then show ?case using Cons.IH by (simp add: remove_all_simps)
qed

lemma config_fold_modify:
  "config (fold (\<lambda>x. modify_section m c (f x) []) xs fc)
     = remove_all m c (map f xs) (config fc)
   \<and> committed (fold (\<lambda>x. modify_section m c (f x) []) xs fc) = committed fc"
  by (induction xs arbitrary: fc) (simp_all add: remove_all_simps modify_section_def)

lemma remove_owned_eq:
  "remove_owned m c isis vrf fc
     = fc\<lparr>config := remove_all m c (owned_patterns isis vrf) (config fc)\<rparr>"
proof -
  have "config (remove_owned m c isis vrf fc)
          = remove_all m c (owned_patterns isis vrf) (config fc)
        \<and> committed (remove_owned m c isis vrf fc) = committed fc"
    by (simp add: remove_owned_def owned_patterns_def config_fold_modify remove_all_simps
          remove_all_append modify_section_def split: option.splits)
  then show ?thesis by simp
qed

lemma apply_config_cong:
  assumes "vrf_suffix isis = Inr vrf"
    and "remove_all m c (owned_patterns isis vrf) text1
           = remove_all m c (owned_patterns isis vrf) text2"
  shows "apply_config m c isis text1 = apply_config m c isis text2"
  using assms by (simp add: apply_config_def remove_owned_eq load_configuration_def)

lemma apply_config_config:
  assumes "apply_config m c isis daemon_text = Inr r"
    and "vrf_suffix isis = Inr vrf"
    and "map_of isis ''new_frr_config'' = Some (Str new)"
    and "R = remove_all m c (owned_patterns isis vrf) daemon_text"
  shows "config r = (if lines_of new \<noteq> [] \<and> list_ex (m before_pattern) R
                     then takeWhile (\<lambda>l. \<not> m before_pattern l) R @ lines_of new
                          @ dropWhile (\<lambda>l. \<not> m before_pattern l) R
                     else R)"
  using assms
  by (auto simp: apply_config_def remove_owned_eq load_configuration_def add_before_def
        commit_configuration_def Let_def split: if_splits)

subsection \<open>Idempotence\<close>

text \<open>
  Claim C1, as stated, fails when the rendered text holds a line outside every owned
  section. With the comment line \<^verbatim>\<open>!\<close> at the head of \<^verbatim>\<open>new_frr_config\<close>, the second
  application leaves the first comment line in place and inserts another one.
\<close>

theorem apply_config_idempotent_counterexample:
  "apply_config py_match indented isis_comment [''line vty'']
     = Inr \<lparr>config = [''!'', ''router isis FOO'', '' net 49.0001.1921.6800.1002.00'',
                      ''line vty''],
            committed = [[''!'', ''router isis FOO'', '' net 49.0001.1921.6800.1002.00'',
                          ''line vty'']]\<rparr>
   \<and> apply_config py_match indented isis_comment
        [''!'', ''router isis FOO'', '' net 49.0001.1921.6800.1002.00'', ''line vty'']
     = Inr \<lparr>config = [''!'', ''!'', ''router isis FOO'', '' net 49.0001.1921.6800.1002.00'',
                      ''line vty''],
            committed = [[''!'', ''!'', ''router isis FOO'', '' net 49.0001.1921.6800.1002.00'',
                          ''line vty'']]\<rparr>"
  by code_simp

text \<open>
  Claim C1, amended. With the daemon configuration as a text snapshot and \<^verbatim>\<open>apply\<close> as
  the removal of every section under the handler's anchors followed by the insertion of
  \<^verbatim>\<open>new_frr_config\<close> before the anchor \<^verbatim>\<open>(ip prefix-list .*|route-map .*|line vty)\<close>:
  if \<^verbatim>\<open>apply\<close> succeeds on a snapshot, \<^verbatim>\<open>new_frr_config\<close> is made of sections under the
  handler's anchors only, and no line of the snapshot that matches the insertion anchor
  continues a section, then applying the same dictionary to the result gives the same
  result again (the same text, committed the same number of times).
\<close>

theorem apply_config_idempotent:
  assumes run: "apply_config re_match continues isis daemon_text = Inr r"
    and vrf: "vrf_suffix isis = Inr vrf"
    and new: "map_of isis ''new_frr_config'' = Some (Str new_frr_config)"
    and owned: "owned_text re_match continues (owned_patterns isis vrf) (lines_of new_frr_config)"
    and anchor: "\<forall>l \<in> set daemon_text. re_match before_pattern l \<longrightarrow> \<not> continues l"
  shows "apply_config re_match continues isis (config r) = Inr r"
proof -
  let ?ps = "owned_patterns isis vrf"
  let ?R = "remove_all re_match continues ?ps daemon_text"
  let ?N = "lines_of new_frr_config"
  let ?pre = "takeWhile (\<lambda>l. \<not> re_match before_pattern l) ?R"
  let ?post = "dropWhile (\<lambda>l. \<not> re_match before_pattern l) ?R"
  note c = apply_config_config [OF run vrf new refl]
  have clean: "\<forall>p \<in> set ?ps. \<forall>l \<in> set ?R. \<not> re_match p l"
    using remove_all_none_left by blast
  have "remove_all re_match continues ?ps (config r) = ?R"
  proof (cases "?N \<noteq> [] \<and> list_ex (re_match before_pattern) ?R")
    case False
    then have "config r = ?R" using c by auto
    then show ?thesis using clean by (simp add: remove_all_id)
  next
    case True
    then have cfg: "config r = ?pre @ ?N @ ?post" using c by simp
    have pre: "\<forall>p \<in> set ?ps. \<forall>l \<in> set ?pre. \<not> re_match p l"
      using clean by (auto dest: set_takeWhileD)
    have post: "\<forall>p \<in> set ?ps. \<forall>l \<in> set ?post. \<not> re_match p l"
      using clean by (auto dest: set_dropWhileD)
    have hd: "?post = [] \<or> \<not> continues (hd ?post)"
    proof (cases "?post = []")
      case True
      then show ?thesis by simp
    next
      case False
      then have "re_match before_pattern (hd ?post)"
        using hd_dropWhile [of "\<lambda>l. \<not> re_match before_pattern l" ?R] by simp
      moreover have "hd ?post \<in> set daemon_text"
        using False set_remove_all [of re_match continues ?ps daemon_text]
        by (meson hd_in_set set_dropWhileD subsetD)
      ultimately show ?thesis using anchor by blast
    qed
    have "remove_all re_match continues ?ps (config r)
            = ?pre @ remove_all re_match continues ?ps ?N @ ?post"
      unfolding cfg using pre post hd by (rule remove_all_frame)
    then show ?thesis using remove_all_owned_text [OF owned] by simp
  qed
  then have "apply_config re_match continues isis (config r)
               = apply_config re_match continues isis daemon_text"
    by (rule apply_config_cong [OF vrf])
  then show ?thesis using run by simp
qed

theorem apply_config_idempotent_witness:
  "apply_config py_match indented isis_sections daemon_text0 = Inr applied_sections
   \<and> apply_config py_match indented isis_sections (config applied_sections)
       = Inr applied_sections"
proof -
  have run: "apply_config py_match indented isis_sections daemon_text0 = Inr applied_sections"
    by code_simp
  have vrf: "vrf_suffix isis_sections = Inr []" by code_simp
  have new: "map_of isis_sections ''new_frr_config'' = Some (Str rendered_sections)"
    by code_simp
  have owned: "owned_text py_match indented (owned_patterns isis_sections [])
                 (lines_of rendered_sections)"
    by code_simp
  have anchor: "\<forall>l \<in> set daemon_text0. py_match before_pattern l \<longrightarrow> \<not> indented l"
    by code_simp
  from apply_config_idempotent [OF run vrf new owned anchor] run show ?thesis by simp
qed

subsection \<open>Commits\<close>

text \<open>
  Claim C8. For every dictionary that holds \<^verbatim>\<open>new_frr_config\<close> and whose \<^verbatim>\<open>vrf\<close>, if it
  has one, is a string (\<^verbatim>\<open>get_config\<close> stores the command-line argument there), every
  snapshot, every matcher and every section rule, \<^verbatim>\<open>apply\<close> returns, and
  \<^verbatim>\<open>commit_configuration\<close> has been called six times (the first commit and five more)
  if \<^verbatim>\<open>new_frr_config\<close> is the empty string and exactly once otherwise; every commit
  hands over the same text.
\<close>

theorem apply_config_commits:
  assumes "map_of isis ''vrf'' = None \<or> (\<exists>v. map_of isis ''vrf'' = Some (Str v))"
    and "map_of isis ''new_frr_config'' = Some new_frr_config"
  shows "\<exists>r. apply_config re_match continues isis daemon_text = Inr r
             \<and> committed r
                 = replicate (if new_frr_config = Str [] then 6 else 1) (config r)"
proof -
  obtain vrf where "vrf_suffix isis = Inr vrf"
    using assms(1) by (auto simp: vrf_suffix_def)
  then show ?thesis
    using assms(2)
    by (cases new_frr_config)
       (auto simp: apply_config_def remove_owned_eq load_configuration_def add_before_def
          commit_configuration_def Let_def eval_nat_numeral)
qed

theorem apply_config_commits_witness:
  "apply_config py_match indented isis_sections daemon_text0 = Inr applied_sections
   \<and> committed applied_sections = [config applied_sections]
   \<and> apply_config py_match indented isis_removal daemon_text0 = Inr applied_removal
   \<and> committed applied_removal = replicate 6 (config applied_removal)
   \<and> apply_config py_match indented isis_comment [''!'']
       = Inr \<lparr>config = [''!''], committed = [[''!'']]\<rparr>"
proof -
  have v1: "map_of isis_sections ''vrf'' = None \<or> (\<exists>v. map_of isis_sections ''vrf'' = Some (Str v))"
    by (rule disjI1) code_simp
  have n1: "map_of isis_sections ''new_frr_config'' = Some (Str rendered_sections)"
    by code_simp
  have e1: "Str rendered_sections \<noteq> Str []" by code_simp
  have run: "apply_config py_match indented isis_sections daemon_text0 = Inr applied_sections"
    by code_simp
  have one: "committed applied_sections = [config applied_sections]"
    using apply_config_commits [OF v1 n1, of py_match indented daemon_text0] run e1 by auto
  have v2: "map_of isis_removal ''vrf'' = None \<or> (\<exists>v. map_of isis_removal ''vrf'' = Some (Str v))"
    by (rule disjI1) code_simp
  have n2: "map_of isis_removal ''new_frr_config'' = Some (Str [])" by code_simp
  have del: "apply_config py_match indented isis_removal daemon_text0 = Inr applied_removal"
    by code_simp
  have six: "committed applied_removal = replicate 6 (config applied_removal)"
    using apply_config_commits [OF v2 n2, of py_match indented daemon_text0] del by auto
  have bare: "apply_config py_match indented isis_comment [''!'']
       = Inr \<lparr>config = [''!''], committed = [[''!'']]\<rparr>"
    by code_simp
  from run one del six bare show ?thesis by simp
qed

end
